theory Spec2Isabelle
  imports Complex_Main "HOL-Library.Sublist"
begin

section \<open>Values, errors and strings\<close>

text \<open>
  The Python exceptions that \<open>code/data.py\<close> can raise: \<open>TypeError\<close> (\<open>'Move' in x\<close>
  on a missing value), \<open>KeyError\<close> (a dictionary lookup that misses), \<open>ValueError\<close>
  (\<open>math.log\<close> of a non-positive number, or a row of the wrong width handed to the
  table constructor) and \<open>IndexError\<close> (a list assignment out of range).
\<close>

datatype error = TypeError | KeyError | ValueError | IndexError

text \<open>
  A float is either NaN or a number. Numbers are taken in the reals: rounding and
  infinities are outside this model.
\<close>

datatype pyfloat = NaN | Fin real

text \<open>\<open>x + 1\<close> on a float: NaN stays NaN.\<close>

fun add1 :: "pyfloat \<Rightarrow> pyfloat" where
  "add1 NaN = NaN"
| "add1 (Fin x) = Fin (x + 1)"

text \<open>
  \<open>math.log\<close>: NaN for NaN, a math domain error for an argument that is not positive,
  the natural logarithm otherwise.
\<close>

fun math_log :: "pyfloat \<Rightarrow> error + pyfloat" where
  "math_log NaN = Inr NaN"
| "math_log (Fin x) = (if x \<le> 0 then Inl ValueError else Inr (Fin (ln x)))"

text \<open>
  Strings are lists of characters; \<open>str.lower\<close> is modelled on ASCII letters, which is
  all the vocabulary names contain.
\<close>

definition lower_char :: "char \<Rightarrow> char" where
  "lower_char c =
     (let n = (of_char c :: nat) in if 65 \<le> n \<and> n \<le> 90 then char_of (n + 32) else c)"

definition lower :: "string \<Rightarrow> string" where
  "lower s = map lower_char s"

fun startswith :: "string \<Rightarrow> string \<Rightarrow> bool" where
  "startswith s [] = True"
| "startswith [] (p # ps) = False"
| "startswith (c # cs) (p # ps) = (c = p \<and> startswith cs ps)"

text \<open>\<open>sub in s\<close> for strings: \<open>sub\<close> occurs in \<open>s\<close> as a contiguous block.\<close>

fun str_contains :: "string \<Rightarrow> string \<Rightarrow> bool" where
  "str_contains sub [] = (sub = [])"
| "str_contains sub (c # cs) = (startswith (c # cs) sub \<or> str_contains sub cs)"

section \<open>Series operations of the table library\<close>

text \<open>
  A numeric column is a list of optional numbers, \<open>None\<close> standing for a missing value.
  The aggregates skip missing values (\<open>skipna\<close> is on by default) and give NaN when
  nothing is left; \<open>std\<close> is the sample standard deviation (one degree of freedom
  removed) and gives NaN when fewer than two values are present.
\<close>

definition dropna :: "'a option list \<Rightarrow> 'a list" where
  "dropna s = List.map_filter (\<lambda>x. x) s"

definition series_max :: "real option list \<Rightarrow> pyfloat" where
  "series_max s = (case dropna s of [] \<Rightarrow> NaN | x # xs \<Rightarrow> Fin (fold max xs x))"

definition series_mean :: "real option list \<Rightarrow> pyfloat" where
  "series_mean s =
     (case dropna s of [] \<Rightarrow> NaN | x # xs \<Rightarrow> Fin (sum_list (x # xs) / real (length (x # xs))))"

definition series_std :: "real option list \<Rightarrow> pyfloat" where
  "series_std s =
     (let vs = dropna s; n = length vs in
      if n < 2 then NaN
      else (let m = sum_list vs / real n in
            Fin (sqrt (sum_list (map (\<lambda>x. (x - m)\<^sup>2) vs) / real (n - 1)))))"

text \<open>
  \<open>Series.apply\<close> with a function that may raise: the first exception aborts.
\<close>

fun apply_series :: "('a \<Rightarrow> error + 'b) \<Rightarrow> 'a list \<Rightarrow> error + 'b list" where
  "apply_series f [] = Inr []"
| "apply_series f (x # xs) =
     (case f x of
        Inl e \<Rightarrow> Inl e
      | Inr y \<Rightarrow> (case apply_series f xs of Inl e \<Rightarrow> Inl e | Inr ys \<Rightarrow> Inr (y # ys)))"

text \<open>
  \<open>value_counts(normalize=True)\<close>: one entry per distinct value, the value's count
  divided by the number of values, largest first. The order among equal frequencies is
  not relied upon.
\<close>

definition unique :: "'a list \<Rightarrow> 'a list" where
  "unique xs = rev (remdups (rev xs))"

definition value_counts_normalize :: "'a list \<Rightarrow> ('a \<times> real) list" where
  "value_counts_normalize xs =
     sort_key (\<lambda>p. - snd p)
       (map (\<lambda>v. (v, real (count_list xs v) / real (length xs))) (unique xs))"

section \<open>Vocabularies\<close>

definition ACTIVITY_NAMES :: "string list" where
  "ACTIVITY_NAMES = [''nonproduction'', ''input'', ''remove/cut'', ''paste'', ''replace'', ''move'']"

definition ACTIVITY2IDX :: "string \<rightharpoonup> nat" where
  "ACTIVITY2IDX = map_of (zip ACTIVITY_NAMES [0 ..< length ACTIVITY_NAMES])"

definition TEXT_CHANGE_NAMES :: "string list" where
  "TEXT_CHANGE_NAMES = [''alphanum'', ''other'']"

definition TEXT_CHANGE2IDX :: "string \<rightharpoonup> nat" where
  "TEXT_CHANGE2IDX = map_of (zip TEXT_CHANGE_NAMES [0 ..< length TEXT_CHANGE_NAMES])"

definition ACTION_TIME_COLS :: "string list" where
  "ACTION_TIME_COLS = [''action_time_max_log'', ''action_time_mean_log'', ''action_time_std_log'']"

section \<open>Categorical frequencies\<close>

text \<open>
  The loop \<open>for name, freq in ...items(): res[IDX[name]] = freq\<close>: a name that is not a
  key of the dictionary raises \<open>KeyError\<close>.
\<close>

fun fill :: "(string \<rightharpoonup> nat) \<Rightarrow> (string \<times> real) list \<Rightarrow> real list \<Rightarrow> error + real list" where
  "fill idx [] res = Inr res"
| "fill idx ((name, freq) # rest) res =
     (case idx name of
        None \<Rightarrow> Inl KeyError
      | Some i \<Rightarrow> if i < length res then fill idx rest (res[i := freq]) else Inl IndexError)"

text \<open>
  The bucketing of \<open>process_activity\<close>, \<open>lambda x: 'move' if 'Move' in x else x.lower()\<close>.
  A missing value is a float, on which \<open>in\<close> raises \<open>TypeError\<close>.
\<close>

definition activity_bucket :: "string option \<Rightarrow> error + string" where
  "activity_bucket x =
     (case x of
        None \<Rightarrow> Inl TypeError
      | Some s \<Rightarrow> Inr (if str_contains ''Move'' s then ''move'' else lower s))"

definition process_activity :: "string option list \<Rightarrow> error + real list" where
  "process_activity data =
     (case apply_series activity_bucket data of
        Inl e \<Rightarrow> Inl e
      | Inr activity \<Rightarrow>
          fill ACTIVITY2IDX (value_counts_normalize activity)
            (replicate (length ACTIVITY_NAMES) 0))"

text \<open>
  The bucketing of \<open>process_text_change\<close>, \<open>lambda x: 'alphanum' if x == 'q' else 'other'\<close>;
  a missing value is not equal to \<open>'q'\<close>.
\<close>

definition text_change_bucket :: "string option \<Rightarrow> error + string" where
  "text_change_bucket x = Inr (if x = Some ''q'' then ''alphanum'' else ''other'')"

definition process_text_change :: "string option list \<Rightarrow> error + real list" where
  "process_text_change data =
     (case apply_series text_change_bucket data of
        Inl e \<Rightarrow> Inl e
      | Inr text_change \<Rightarrow>
          fill TEXT_CHANGE2IDX (value_counts_normalize text_change)
            (replicate (length TEXT_CHANGE_NAMES) 0))"

section \<open>Tables\<close>

text \<open>
  An event row. The \<open>id\<close> column is the key of the table and is present in every row;
  the other three columns may hold missing values.
\<close>

record 'i event =
  event_id :: 'i
  action_time :: "real option"
  activity :: "string option"
  text_change :: "string option"

text \<open>
  A table: the column names and the rows, each row with one cell per column. A cell
  holds an id or a float; a missing value is the float NaN.
\<close>

datatype 'i cell = Id 'i | Val pyfloat

record 'i dataframe =
  columns :: "string list"
  rows :: "'i cell list list"

text \<open>
  \<open>pd.DataFrame(data=..., columns=...)\<close> from a list of rows: a row whose width is not
  the number of columns is refused. (Rows of differing widths, which the constructor
  would pad, do not arise in this program.)
\<close>

definition DataFrame :: "'i cell list list \<Rightarrow> string list \<Rightarrow> error + 'i dataframe" where
  "DataFrame data cols =
     (if list_all (\<lambda>r. length r = length cols) data
      then Inr \<lparr>columns = cols, rows = data\<rparr>
      else Inl ValueError)"

text \<open>
  \<open>df.groupby('id')\<close>: the groups in increasing order of the key, each with its rows in
  their original order.
\<close>

definition groupby_id :: "('i::linorder) event list \<Rightarrow> ('i \<times> 'i event list) list" where
  "groupby_id df =
     map (\<lambda>k. (k, filter (\<lambda>e. event_id e = k) df)) (sort (remdups (map event_id df)))"

text \<open>The position of a column name, and a row or header without one position.\<close>

fun index_of :: "'a \<Rightarrow> 'a list \<Rightarrow> nat option" where
  "index_of x [] = None"
| "index_of x (y # ys) = (if x = y then Some 0 else map_option Suc (index_of x ys))"

definition drop_at :: "nat \<Rightarrow> 'a list \<Rightarrow> 'a list" where
  "drop_at k xs = take k xs @ drop (Suc k) xs"

text \<open>
  \<open>left.merge(right, on='id', how='left')\<close>. The key column is looked up by its
  name, in the right frame first and then in the left one: a frame without a column of
  that name raises \<open>KeyError\<close>, a frame with more than one raises \<open>ValueError\<close> (the
  label is not unique). Every row of the left frame is followed through in order: it is
  paired with each row of the right frame that has the same key, in the right frame's
  order, or, when there is none, padded with missing values. The columns are those of
  the left frame followed by those of the right frame without its key; a name that both
  lists have gets the suffix \<open>_x\<close> on the left and \<open>_y\<close> on the right. (This is the column
  order of version 2.2 of the library and later; earlier versions order the columns
  differently when the left frame has no rows.)
\<close>

definition key_position :: "string \<Rightarrow> string list \<Rightarrow> error + nat" where
  "key_position key cols =
     (case index_of key cols of
        None \<Rightarrow> Inl KeyError
      | Some k \<Rightarrow> if count_list cols key = 1 then Inr k else Inl ValueError)"

definition merge_columns :: "string list \<Rightarrow> string list \<Rightarrow> string list" where
  "merge_columns lcols rcols =
     map (\<lambda>c. if c \<in> set rcols then c @ ''_x'' else c) lcols
     @ map (\<lambda>c. if c \<in> set lcols then c @ ''_y'' else c) rcols"

definition merge_row :: "nat \<Rightarrow> nat \<Rightarrow> 'i cell list list \<Rightarrow> nat \<Rightarrow> 'i cell list \<Rightarrow> 'i cell list list" where
  "merge_row kl kr rrows width l =
     (case filter (\<lambda>r. r ! kr = l ! kl) rrows of
        [] \<Rightarrow> [l @ replicate width (Val NaN)]
      | m # ms \<Rightarrow> map (\<lambda>r. l @ drop_at kr r) (m # ms))"

definition merge_left :: "'i dataframe \<Rightarrow> 'i dataframe \<Rightarrow> error + 'i dataframe" where
  "merge_left left right =
     (case key_position ''id'' (columns right) of
        Inl e \<Rightarrow> Inl e
      | Inr kr \<Rightarrow>
          (case key_position ''id'' (columns left) of
             Inl e \<Rightarrow> Inl e
           | Inr kl \<Rightarrow>
               Inr \<lparr>columns = merge_columns (columns left) (drop_at kr (columns right)),
                    rows = concat (map (merge_row kl kr (rows right)
                                          (length (columns right) - 1)) (rows left))\<rparr>))"

section \<open>The transform\<close>

text \<open>
  The three timing entries of a row: the list literal evaluates \<open>math.log\<close> of the
  maximum, of the mean and of the standard deviation, each plus one, in this order.
\<close>

definition action_time_logs :: "real option list \<Rightarrow> error + pyfloat list" where
  "action_time_logs s =
     (case math_log (add1 (series_max s)) of
        Inl e \<Rightarrow> Inl e
      | Inr a \<Rightarrow>
          (case math_log (add1 (series_mean s)) of
             Inl e \<Rightarrow> Inl e
           | Inr b \<Rightarrow>
               (case math_log (add1 (series_std s)) of
                  Inl e \<Rightarrow> Inl e
                | Inr c \<Rightarrow> Inr [a, b, c])))"

text \<open>The body of the loop over the groups: the row \<open>tmp\<close> of one group.\<close>

definition group_row :: "'i \<Rightarrow> 'i event list \<Rightarrow> error + 'i cell list" where
  "group_row log_id grp =
     (case action_time_logs (map action_time grp) of
        Inl e \<Rightarrow> Inl e
      | Inr ts \<Rightarrow>
          (case process_activity (map activity grp) of
             Inl e \<Rightarrow> Inl e
           | Inr acts \<Rightarrow>
               (case process_text_change (map text_change grp) of
                  Inl e \<Rightarrow> Inl e
                | Inr tcs \<Rightarrow>
                    Inr ([Id log_id] @ map Val ts @ map (\<lambda>f. Val (Fin f)) acts
                         @ map (\<lambda>f. Val (Fin f)) tcs))))"

text \<open>The loop itself: \<open>data\<close> collects the rows, an exception leaves the loop.\<close>

fun collect_rows :: "('i \<times> 'i event list) list \<Rightarrow> 'i cell list list \<Rightarrow> error + 'i cell list list" where
  "collect_rows [] data = Inr data"
| "collect_rows ((log_id, grp) # rest) data =
     (case group_row log_id grp of
        Inl e \<Rightarrow> Inl e
      | Inr tmp \<Rightarrow> collect_rows rest (data @ [tmp]))"

text \<open>
  \<open>prepare_data\<close>: the rows of all groups, made into a table with the twelve feature
  columns, and joined with the labels when there are any. (The count \<open>n_groups\<close> only
  feeds the progress bar.)
\<close>

definition FEATURE_COLUMNS :: "string list" where
  "FEATURE_COLUMNS = [''id''] @ ACTION_TIME_COLS @ ACTIVITY_NAMES @ TEXT_CHANGE_NAMES"

definition prepare_data :: "('i::linorder) event list \<Rightarrow> 'i dataframe option \<Rightarrow> error + 'i dataframe" where
  "prepare_data df labels =
     (case collect_rows (groupby_id df) [] of
        Inl e \<Rightarrow> Inl e
      | Inr data \<Rightarrow>
          (case DataFrame data FEATURE_COLUMNS of
             Inl e \<Rightarrow> Inl e
           | Inr res \<Rightarrow>
               (case labels of
                  None \<Rightarrow> Inr res
                | Some l \<Rightarrow> merge_left res l)))"

section \<open>Auxiliary notions for the statements\<close>

text \<open>The bucket of a present activity value, and the bucket of a text-change value.\<close>

definition bucket_of :: "string \<Rightarrow> string" where
  "bucket_of s = (if str_contains ''Move'' s then ''move'' else lower s)"

definition tc_bucket_of :: "string option \<Rightarrow> string" where
  "tc_bucket_of x = (if x = Some ''q'' then ''alphanum'' else ''other'')"

section \<open>Strings and series: basic facts\<close>

lemma startswith_prefix: "startswith s p \<longleftrightarrow> prefix p s"
  by (induction s p rule: startswith.induct) auto

lemma str_contains_sublist: "str_contains sub s \<longleftrightarrow> sublist sub s"
  by (induction s) (auto simp: startswith_prefix sublist_Cons_right)

lemma apply_series_total: "apply_series (\<lambda>x. Inr (g x)) xs = Inr (map g xs)"
  by (induction xs) auto

lemma fill_length: "fill idx kvs res = Inr res' \<Longrightarrow> length res' = length res"
  by (induction idx kvs res rule: fill.induct) (auto split: option.splits if_splits)

lemma fill_succeeds:
  "\<forall>k\<in>fst ` set kvs. \<exists>i. idx k = Some i \<and> i < length res \<Longrightarrow> \<exists>res'. fill idx kvs res = Inr res'"
  by (induction idx kvs res rule: fill.induct) (auto split: option.splits)

lemma fill_KeyError:
  "k \<in> fst ` set kvs \<Longrightarrow> idx k = None \<Longrightarrow> \<forall>k i. idx k = Some i \<longrightarrow> i < length res
     \<Longrightarrow> fill idx kvs res = Inl KeyError"
  by (induction idx kvs res rule: fill.induct) (auto split: option.splits)

lemma fill_nth:
  "fill idx kvs res = Inr res' \<Longrightarrow> distinct (map fst kvs)
     \<Longrightarrow> \<forall>k k' j. idx k = Some j \<longrightarrow> idx k' = Some j \<longrightarrow> k = k'
     \<Longrightarrow> idx k = Some i \<Longrightarrow> i < length res
     \<Longrightarrow> res' ! i = (case map_of kvs k of Some v \<Rightarrow> v | None \<Rightarrow> res ! i)"
proof (induction idx kvs res rule: fill.induct)
  case (1 idx res)
  then show ?case by simp
next
  case (2 idx name freq rest res)
  from "2.prems"(1) obtain i0 where i0: "idx name = Some i0" "i0 < length res"
      and rest: "fill idx rest (res[i0 := freq]) = Inr res'"
    by (auto split: option.splits if_splits)
  have ih: "res' ! i = (case map_of rest k of Some v \<Rightarrow> v | None \<Rightarrow> (res[i0 := freq]) ! i)"
    using "2.IH"[OF i0(1) i0(2) rest] "2.prems" by simp
  show ?case
  proof (cases "k = name")
    case True
    then have "i = i0" using i0 "2.prems"(4) by simp
    moreover have "map_of rest k = None"
      using True "2.prems"(2) by (simp add: map_of_eq_None_iff)
    ultimately show ?thesis using ih True i0 by simp
  next
    case False
    then have "i \<noteq> i0" using i0 "2.prems"(3,4) by blast
    then show ?thesis using ih False by (simp split: option.splits)
  qed
qed

lemma unique_set: "set (unique xs) = set xs"
  by (simp add: unique_def)

lemma unique_distinct: "distinct (unique xs)"
  by (simp add: unique_def)

lemma vcn_set:
  "set (value_counts_normalize xs) = (\<lambda>v. (v, real (count_list xs v) / real (length xs))) ` set xs"
  by (simp add: value_counts_normalize_def unique_set)

lemma vcn_fst_set: "fst ` set (value_counts_normalize xs) = set xs"
  by (force simp: vcn_set)

lemma distinct_map_sort_key: "distinct (map g (sort_key f l)) = distinct (map g l)"
  by (simp add: distinct_map)

lemma vcn_distinct: "distinct (map fst (value_counts_normalize xs))"
  unfolding value_counts_normalize_def distinct_map_sort_key
  by (simp add: comp_def unique_distinct)

lemma vcn_map_of:
  "map_of (value_counts_normalize xs) k =
     (if k \<in> set xs then Some (real (count_list xs k) / real (length xs)) else None)"
proof (cases "k \<in> set xs")
  case True
  then have "(k, real (count_list xs k) / real (length xs)) \<in> set (value_counts_normalize xs)"
    by (auto simp: vcn_set)
  then show ?thesis using True vcn_distinct [of xs] by simp
next
  case False
  then show ?thesis by (simp add: map_of_eq_None_iff vcn_fst_set)
qed

section \<open>The histogram loop\<close>

lemma idx_Some:
  assumes "distinct names"
  shows "map_of (zip names [0 ..< length names]) k = Some i \<longleftrightarrow> i < length names \<and> names ! i = k"
proof
  assume "map_of (zip names [0 ..< length names]) k = Some i"
  then have "(k, i) \<in> set (zip names [0 ..< length names])" by (rule map_of_SomeD)
  then show "i < length names \<and> names ! i = k"
    by (auto simp: set_zip)
next
  assume a: "i < length names \<and> names ! i = k"
  have "map_of (zip names [0 ..< length names]) (names ! i) = Some ([0 ..< length names] ! i)"
    using assms a by (intro map_of_zip_nth) auto
  then show "map_of (zip names [0 ..< length names]) k = Some i" using a by simp
qed

lemma histogram_ok:
  assumes d: "distinct names" and sub: "set xs \<subseteq> set names"
  shows "fill (map_of (zip names [0 ..< length names])) (value_counts_normalize xs)
           (replicate (length names) 0)
         = Inr (map (\<lambda>nm. real (count_list xs nm) / real (length xs)) names)"
proof -
  let ?idx = "map_of (zip names [0 ..< length names])"
  let ?res = "replicate (length names) (0::real)"
  have "\<forall>k\<in>fst ` set (value_counts_normalize xs). \<exists>i. ?idx k = Some i \<and> i < length ?res"
  proof
    fix k assume "k \<in> fst ` set (value_counts_normalize xs)"
    then have "k \<in> set names" using sub by (auto simp: vcn_fst_set)
    then obtain i where "i < length names" "names ! i = k" by (auto simp: in_set_conv_nth)
    then show "\<exists>i. ?idx k = Some i \<and> i < length ?res" using idx_Some[OF d] by auto
  qed
  then obtain res' where res': "fill ?idx (value_counts_normalize xs) ?res = Inr res'"
    using fill_succeeds by blast
  have len: "length res' = length names" using fill_length[OF res'] by simp
  have inj: "\<forall>k k' j. ?idx k = Some j \<longrightarrow> ?idx k' = Some j \<longrightarrow> k = k'"
    using idx_Some[OF d] by auto
  have "res' ! i = real (count_list xs (names ! i)) / real (length xs)" if i: "i < length names" for i
  proof -
    have "?idx (names ! i) = Some i" using idx_Some[OF d] i by simp
    from fill_nth[OF res' vcn_distinct inj this] i
    have "res' ! i = (case map_of (value_counts_normalize xs) (names ! i) of Some v \<Rightarrow> v | None \<Rightarrow> 0)"
      by (simp split: option.splits)
    then show ?thesis by (simp add: vcn_map_of count_list_0_iff)
  qed
  then have "res' = map (\<lambda>nm. real (count_list xs nm) / real (length xs)) names"
    using len by (intro nth_equalityI) auto
  then show ?thesis using res' by simp
qed

lemma histogram_KeyError:
  assumes "\<not> set xs \<subseteq> set names"
  shows "fill (map_of (zip names [0 ..< length names])) (value_counts_normalize xs)
           (replicate (length names) 0) = Inl KeyError"
proof -
  from assms obtain k where k: "k \<in> set xs" "k \<notin> set names" by auto
  have "k \<in> fst ` set (value_counts_normalize xs)" using k by (simp add: vcn_fst_set)
  moreover have "map_of (zip names [0 ..< length names]) k = None" using k by simp
  moreover have "\<forall>k i. map_of (zip names [0 ..< length names]) k = Some i
                   \<longrightarrow> i < length (replicate (length names) (0::real))"
    by (auto dest!: map_of_SomeD simp: set_zip)
  ultimately show ?thesis by (rule fill_KeyError)
qed

lemma sum_count_names:
  assumes "distinct names" "set xs \<subseteq> set names"
  shows "sum_list (map (\<lambda>nm. real (count_list xs nm)) names) = real (length xs)"
proof -
  have "sum_list (map (\<lambda>nm. real (count_list xs nm)) names) = (\<Sum>nm\<in>set names. real (count_list xs nm))"
    using assms(1) by (simp add: sum_list_distinct_conv_sum_set)
  also have "\<dots> = real (\<Sum>nm\<in>set names. count_list xs nm)" by simp
  also have "\<dots> = real (length xs)" using sum_count_set[OF assms(2)] by simp
  finally show ?thesis .
qed

lemma histogram_sum:
  assumes "distinct names" "set xs \<subseteq> set names" "xs \<noteq> []"
  shows "sum_list (map (\<lambda>nm. real (count_list xs nm) / real (length xs)) names) = 1"
proof -
  have "sum_list (map (\<lambda>nm. real (count_list xs nm) / real (length xs)) names)
        = sum_list (map (\<lambda>nm. real (count_list xs nm)) names) / real (length xs)"
    by (induction names) (simp_all add: add_divide_distrib)
  then show ?thesis using sum_count_names[OF assms(1,2)] assms(3) by simp
qed

lemma histogram_bounds:
  "0 \<le> real (count_list xs nm) / real (length xs) \<and> real (count_list xs nm) / real (length xs) \<le> 1"
proof -
  have "count_list xs nm \<le> length xs" by (rule count_le_length)
  then show ?thesis by (cases "xs = []") (auto simp: divide_le_eq_1)
qed

section \<open>Activity and text-change frequencies\<close>

lemma distinct_ACTIVITY_NAMES: "distinct ACTIVITY_NAMES"
  by (simp add: ACTIVITY_NAMES_def)

lemma distinct_TEXT_CHANGE_NAMES: "distinct TEXT_CHANGE_NAMES"
  by (simp add: TEXT_CHANGE_NAMES_def)

lemma count_list_map: "count_list (map f xs) y = length (filter (\<lambda>x. f x = y) xs)"
  by (induction xs) auto

lemma apply_activity_bucket: "apply_series activity_bucket (map Some raw) = Inr (map bucket_of raw)"
  by (induction raw) (auto simp: activity_bucket_def bucket_of_def)

lemma process_activity_known:
  assumes "set (map bucket_of raw) \<subseteq> set ACTIVITY_NAMES"
  shows "process_activity (map Some raw) =
           Inr (map (\<lambda>nm. real (count_list (map bucket_of raw) nm) / real (length raw)) ACTIVITY_NAMES)"
  using histogram_ok[OF distinct_ACTIVITY_NAMES assms]
  by (simp add: process_activity_def apply_activity_bucket ACTIVITY2IDX_def)

lemma process_activity_unknown:
  assumes "\<not> set (map bucket_of raw) \<subseteq> set ACTIVITY_NAMES"
  shows "process_activity (map Some raw) = Inl KeyError"
  using histogram_KeyError[OF assms]
  by (simp add: process_activity_def apply_activity_bucket ACTIVITY2IDX_def)

text \<open>
  Claim C5. For a non-empty group of activity values whose buckets are all vocabulary
  names, \<open>process_activity\<close> returns, for each of the six names in the fixed order
  nonproduction, input, remove/cut, paste, replace, move, the share of the values that
  fall in that bucket, where a raw value containing \<open>Move\<close> falls in \<open>move\<close> and any
  other value in its lower-cased form; a name that no value falls in gets 0.
\<close>

theorem process_activity_frequencies:
  assumes "raw \<noteq> []"
    and "\<forall>s\<in>set raw. (if sublist ''Move'' s then ''move'' else lower s) \<in> set ACTIVITY_NAMES"
  shows "process_activity (map Some raw) =
           Inr (map (\<lambda>nm. real (length (filter (\<lambda>s. (if sublist ''Move'' s then ''move'' else lower s) = nm) raw))
                             / real (length raw))
                  [''nonproduction'', ''input'', ''remove/cut'', ''paste'', ''replace'', ''move''])"
proof -
  have b: "bucket_of = (\<lambda>s. if sublist ''Move'' s then ''move'' else lower s)"
    by (rule ext) (simp add: bucket_of_def str_contains_sublist)
  have "set (map bucket_of raw) \<subseteq> set ACTIVITY_NAMES" using assms(2) unfolding b by auto
  from process_activity_known[OF this] show ?thesis
    unfolding count_list_map b by (simp add: ACTIVITY_NAMES_def)
qed

text \<open>The example of the specification: Input, Remove/Cut, Move To.\<close>

theorem process_activity_frequencies_witness:
  "process_activity [Some ''Input'', Some ''Remove/Cut'', Some ''Move To''] = Inr [0, 1/3, 1/3, 0, 0, 1/3]"
proof -
  have l1: "lower ''Input'' = ''input''" by code_simp
  have l2: "lower ''Remove/Cut'' = ''remove/cut''" by code_simp
  have s1: "\<not> sublist ''Move'' ''Input''" unfolding str_contains_sublist[symmetric] by simp
  have s2: "\<not> sublist ''Move'' ''Remove/Cut''" unfolding str_contains_sublist[symmetric] by simp
  have s3: "sublist ''Move'' ''Move To''" unfolding str_contains_sublist[symmetric] by simp
  show ?thesis
    using process_activity_frequencies[of "[''Input'', ''Remove/Cut'', ''Move To'']"]
    by (simp add: l1 l2 s1 s2 s3 ACTIVITY_NAMES_def)
qed

lemma process_text_change_hist:
  "process_text_change data =
     Inr (map (\<lambda>nm. real (count_list (map tc_bucket_of data) nm) / real (length data)) TEXT_CHANGE_NAMES)"
proof -
  have a: "apply_series text_change_bucket data = Inr (map tc_bucket_of data)"
    unfolding text_change_bucket_def tc_bucket_of_def by (rule apply_series_total)
  have "set (map tc_bucket_of data) \<subseteq> set TEXT_CHANGE_NAMES"
    by (auto simp: tc_bucket_of_def TEXT_CHANGE_NAMES_def)
  from histogram_ok[OF distinct_TEXT_CHANGE_NAMES this] show ?thesis
    by (simp add: process_text_change_def a TEXT_CHANGE2IDX_def)
qed

text \<open>
  Claim C8. \<open>process_text_change\<close> never fails: on every column it returns the share of
  values equal to \<open>q\<close> (bucket \<open>alphanum\<close>) followed by the share of all other values
  (bucket \<open>other\<close>), and two zeros on an empty column.
\<close>

theorem process_text_change_total:
  "process_text_change data =
     Inr (if data = [] then [0, 0]
          else [real (length (filter (\<lambda>x. x = Some ''q'') data)) / real (length data),
                real (length (filter (\<lambda>x. x \<noteq> Some ''q'') data)) / real (length data)])"
proof -
  have "{x. tc_bucket_of x = ''alphanum''} = {x. x = Some ''q''}" by (auto simp: tc_bucket_of_def)
  then have 1: "(\<lambda>x. tc_bucket_of x = ''alphanum'') = (\<lambda>x. x = Some ''q'')" by (auto simp: tc_bucket_of_def)
  have 2: "(\<lambda>x. tc_bucket_of x = ''other'') = (\<lambda>x. x \<noteq> Some ''q'')" by (auto simp: tc_bucket_of_def)
  show ?thesis
    unfolding process_text_change_hist count_list_map
    by (simp add: TEXT_CHANGE_NAMES_def 1 2)
qed

text \<open>The example of the specification: q, q, x.\<close>

theorem process_text_change_total_witness:
  "process_text_change [Some ''q'', Some ''q'', Some ''x''] = Inr [2/3, 1/3]"
  using process_text_change_total[of "[Some ''q'', Some ''q'', Some ''x'']"] by simp

lemma apply_activity_missing:
  "None \<in> set acts \<Longrightarrow> apply_series activity_bucket acts = Inl TypeError"
  by (induction acts) (auto simp: activity_bucket_def split: option.splits sum.splits)

lemma process_activity_missing:
  "None \<in> set acts \<Longrightarrow> process_activity acts = Inl TypeError"
  by (simp add: process_activity_def apply_activity_missing)

lemma all_present: "None \<notin> set acts \<Longrightarrow> acts = map Some (map the acts)"
  by (induction acts) auto

lemma process_activity_Inr:
  assumes "process_activity acts = Inr v"
  shows "\<exists>raw. acts = map Some raw \<and> set (map bucket_of raw) \<subseteq> set ACTIVITY_NAMES
           \<and> v = map (\<lambda>nm. real (count_list (map bucket_of raw) nm) / real (length raw)) ACTIVITY_NAMES"
proof -
  have "None \<notin> set acts" using assms process_activity_missing by fastforce
  then have acts: "acts = map Some (map the acts)" by (rule all_present)
  let ?raw = "map the acts"
  have sub: "set (map bucket_of ?raw) \<subseteq> set ACTIVITY_NAMES"
  proof (rule ccontr)
    assume "\<not> ?thesis"
    from process_activity_unknown[OF this] assms acts show False by simp
  qed
  from process_activity_known[OF sub] assms acts
  have "v = map (\<lambda>nm. real (count_list (map bucket_of ?raw) nm) / real (length ?raw)) ACTIVITY_NAMES"
    by simp
  with acts sub show ?thesis by blast
qed

text \<open>
  Claim C2. On a non-empty group, every frequency vector that is produced has entries
  between 0 and 1 that sum to 1: the six activity entries whenever \<open>process_activity\<close>
  returns, and the two text-change entries, which \<open>process_text_change\<close> always returns.
  (Arithmetic is exact here, so the sum is 1 with no tolerance.)
\<close>

theorem frequency_vectors_normalised:
  assumes "acts \<noteq> []" and "tcs \<noteq> []"
  shows "(\<forall>v. process_activity acts = Inr v \<longrightarrow>
              length v = 6 \<and> (\<forall>x\<in>set v. 0 \<le> x \<and> x \<le> 1) \<and> sum_list v = 1)
       \<and> (\<exists>w. process_text_change tcs = Inr w \<and>
              length w = 2 \<and> (\<forall>x\<in>set w. 0 \<le> x \<and> x \<le> 1) \<and> sum_list w = 1)"
proof (intro conjI allI impI)
  fix v assume v: "process_activity acts = Inr v"
  from process_activity_Inr[OF v] obtain raw where raw: "acts = map Some raw"
      "set (map bucket_of raw) \<subseteq> set ACTIVITY_NAMES"
      "v = map (\<lambda>nm. real (count_list (map bucket_of raw) nm) / real (length (map bucket_of raw))) ACTIVITY_NAMES"
    by auto
  have ne: "map bucket_of raw \<noteq> []" using assms(1) raw(1) by simp
  show "length v = 6" using raw(3) by (simp add: ACTIVITY_NAMES_def)
  show "\<forall>x\<in>set v. 0 \<le> x \<and> x \<le> 1" unfolding raw(3) using histogram_bounds[of "map bucket_of raw"] by auto
  show "sum_list v = 1" unfolding raw(3)
    by (rule histogram_sum[OF distinct_ACTIVITY_NAMES raw(2) ne])
next
  let ?xs = "map tc_bucket_of tcs"
  let ?w = "map (\<lambda>nm. real (count_list ?xs nm) / real (length ?xs)) TEXT_CHANGE_NAMES"
  have sub: "set ?xs \<subseteq> set TEXT_CHANGE_NAMES"
    by (auto simp: tc_bucket_of_def TEXT_CHANGE_NAMES_def)
  have ne: "?xs \<noteq> []" using assms(2) by simp
  have "process_text_change tcs = Inr ?w" using process_text_change_hist[of tcs] by simp
  moreover have "length ?w = 2" by (simp add: TEXT_CHANGE_NAMES_def)
  moreover have "\<forall>x\<in>set ?w. 0 \<le> x \<and> x \<le> 1" using histogram_bounds[of ?xs] by auto
  moreover have "sum_list ?w = 1" by (rule histogram_sum[OF distinct_TEXT_CHANGE_NAMES sub ne])
  ultimately show "\<exists>w. process_text_change tcs = Inr w \<and>
              length w = 2 \<and> (\<forall>x\<in>set w. 0 \<le> x \<and> x \<le> 1) \<and> sum_list w = 1"
    by blast
qed

theorem frequency_vectors_normalised_witness:
  "process_activity [Some ''Paste'', Some ''Input'', Some ''Input'', Some ''Move From''] = Inr [0, 1/2, 0, 1/4, 0, 1/4]
   \<and> sum_list [0, 1/2, 0, 1/4, 0, 1/4 :: real] = 1
   \<and> process_text_change [Some ''q'', None, Some ''NoChange''] = Inr [1/3, 2/3]
   \<and> sum_list [1/3, 2/3 :: real] = 1"
proof -
  have l1: "lower ''Input'' = ''input''" by code_simp
  have l2: "lower ''Paste'' = ''paste''" by code_simp
  have a: "process_activity [Some ''Paste'', Some ''Input'', Some ''Input'', Some ''Move From''] = Inr [0, 1/2, 0, 1/4, 0, 1/4]"
    by (simp add: process_activity_def activity_bucket_def l1 l2 value_counts_normalize_def unique_def ACTIVITY2IDX_def ACTIVITY_NAMES_def upt_rec)
  have t: "process_text_change [Some ''q'', None, Some ''NoChange''] = Inr [1/3, 2/3]"
    by (simp add: process_text_change_def text_change_bucket_def value_counts_normalize_def unique_def TEXT_CHANGE2IDX_def TEXT_CHANGE_NAMES_def upt_rec)
  show ?thesis
    using frequency_vectors_normalised[of "[Some ''Paste'', Some ''Input'', Some ''Input'', Some ''Move From'']"
        "[Some ''q'', None, Some ''NoChange'']"] a t
    by simp
qed

section \<open>The empty table\<close>

text \<open>
  Claim C10. On an empty event table \<open>prepare_data\<close> returns a table without rows that
  has the twelve feature columns in the fixed order.
\<close>

theorem prepare_data_empty:
  "prepare_data ([] :: ('i::linorder) event list) None =
     Inr \<lparr>columns = [''id'',
                       ''action_time_max_log'', ''action_time_mean_log'', ''action_time_std_log'',
                       ''nonproduction'', ''input'', ''remove/cut'', ''paste'', ''replace'', ''move'',
                       ''alphanum'', ''other''],
          rows = []\<rparr>"
  by (simp add: prepare_data_def groupby_id_def DataFrame_def FEATURE_COLUMNS_def
      ACTION_TIME_COLS_def ACTIVITY_NAMES_def TEXT_CHANGE_NAMES_def)

section \<open>Timing statistics\<close>

lemma dropna_Some: "dropna (map Some vs) = vs"
  by (induction vs) (simp_all add: dropna_def List.map_filter_simps)

lemma dropna_Cons_Some: "dropna (Some v # s) = v # dropna s"
  by (simp add: dropna_def List.map_filter_simps)

lemma dropna_Cons_None: "dropna (None # s) = dropna s"
  by (simp add: dropna_def List.map_filter_simps)

lemma dropna_Nil: "dropna [] = []"
  by (simp add: dropna_def List.map_filter_simps)

lemma series_max_Max: "dropna s \<noteq> [] \<Longrightarrow> series_max s = Fin (Max (set (dropna s)))"
proof -
  assume "dropna s \<noteq> []"
  then obtain x xs where c: "dropna s = x # xs" by (cases "dropna s") auto
  have "fold max xs x = Max (set (x # xs))" by (rule Max.set_eq_fold[symmetric])
  then show ?thesis unfolding series_max_def c by simp
qed

lemma series_mean_eq:
  "dropna s \<noteq> [] \<Longrightarrow> series_mean s = Fin (sum_list (dropna s) / real (length (dropna s)))"
  by (cases "dropna s") (simp_all add: series_mean_def)

lemma series_empty: "dropna s = [] \<Longrightarrow> series_max s = NaN \<and> series_mean s = NaN \<and> series_std s = NaN"
  by (simp add: series_max_def series_mean_def series_std_def)

lemma sum_squares_nonneg: "0 \<le> (\<Sum>x\<leftarrow>vs. (x - (m::real))\<^sup>2) / real k"
  by (intro divide_nonneg_nonneg sum_list_nonneg) auto

lemma series_std_eq:
  "series_std s =
     (if length (dropna s) < 2 then NaN
      else Fin (sqrt ((\<Sum>x\<leftarrow>dropna s. (x - sum_list (dropna s) / real (length (dropna s)))\<^sup>2)
                      / real (length (dropna s) - 1))))"
  unfolding series_std_def Let_def by (rule refl)

lemma series_std_cases:
  "series_std s = NaN \<or> (\<exists>d. 0 \<le> d \<and> series_std s = Fin d)"
proof (cases "length (dropna s) < 2")
  case True
  then show ?thesis by (simp add: series_std_eq)
next
  case False
  let ?d = "sqrt ((\<Sum>x\<leftarrow>dropna s. (x - sum_list (dropna s) / real (length (dropna s)))\<^sup>2)
                      / real (length (dropna s) - 1))"
  have "0 \<le> ?d" using sum_squares_nonneg by (intro real_sqrt_ge_zero)
  moreover have "series_std s = Fin ?d" unfolding series_std_eq using False by (simp only: if_False)
  ultimately show ?thesis by blast
qed

lemma math_log_std: "\<exists>c. math_log (add1 (series_std s)) = Inr c"
  using series_std_cases[of s] by auto

lemma sum_list_nonneg_real: "\<forall>v\<in>set vs. (0::real) \<le> v \<Longrightarrow> 0 \<le> sum_list vs"
  by (induction vs) auto

lemma sum_list_le_Max:
  fixes vs :: "real list"
  shows "vs \<noteq> [] \<Longrightarrow> sum_list vs \<le> real (length vs) * Max (set vs)"
proof -
  assume "vs \<noteq> []"
  have "sum_list vs \<le> sum_list (map (\<lambda>_. Max (set vs)) vs)"
    by (rule sum_list_mono[of vs "\<lambda>x. x", simplified]) simp
  then show ?thesis by (simp add: sum_list_replicate map_replicate_const)
qed

lemma mean_le_Max:
  fixes vs :: "real list"
  assumes "vs \<noteq> []"
  shows "sum_list vs / real (length vs) \<le> Max (set vs)"
proof -
  have "0 < real (length vs)" using assms by simp
  then show ?thesis using sum_list_le_Max[OF assms]
    by (simp add: divide_le_eq mult.commute)
qed

lemma action_time_logs_nonneg:
  assumes "vs \<noteq> []" and "\<forall>v\<in>set vs. 0 \<le> v"
  shows "action_time_logs (map Some vs) =
           Inr [Fin (ln (Max (set vs) + 1)),
                Fin (ln (sum_list vs / real (length vs) + 1)),
                (if length vs < 2 then NaN
                 else Fin (ln (sqrt ((\<Sum>v\<leftarrow>vs. (v - sum_list vs / real (length vs))\<^sup>2)
                                      / real (length vs - 1)) + 1)))]"
proof -
  have d: "dropna (map Some vs) \<noteq> []" using assms(1) by (simp add: dropna_Some)
  have "Max (set vs) \<in> set vs" using assms(1) by (intro Max_in) auto
  then have mx: "0 \<le> Max (set vs)" using assms(2) by blast
  have mn: "0 \<le> sum_list vs / real (length vs)"
    using sum_list_nonneg_real[OF assms(2)] by simp
  let ?sd = "sqrt ((\<Sum>v\<leftarrow>vs. (v - sum_list vs / real (length vs))\<^sup>2) / real (length vs - 1))"
  have sq: "0 \<le> ?sd"
    using sum_squares_nonneg by (intro real_sqrt_ge_zero)
  have a: "math_log (add1 (series_max (map Some vs))) = Inr (Fin (ln (Max (set vs) + 1)))"
    using mx by (simp add: series_max_Max[OF d] dropna_Some)
  have b: "math_log (add1 (series_mean (map Some vs))) = Inr (Fin (ln (sum_list vs / real (length vs) + 1)))"
    using mn by (simp add: series_mean_eq[OF d] dropna_Some)
  have c: "math_log (add1 (series_std (map Some vs))) = Inr (if length vs < 2 then NaN else Fin (ln (?sd + 1)))"
  proof (cases "length vs < 2")
    case True
    then show ?thesis by (simp add: series_std_eq dropna_Some)
  next
    case False
    have "series_std (map Some vs) = Fin ?sd"
      unfolding series_std_eq dropna_Some using False by (simp only: if_False)
    moreover have "\<not> ?sd + 1 \<le> 0" using sq by linarith
    ultimately show ?thesis using False by (simp only: add1.simps math_log.simps if_False)
  qed
  show ?thesis unfolding action_time_logs_def a b c by simp
qed




lemma lower_Input: "lower ''Input'' = ''input''"
  by code_simp

lemma process_activity_Input: "process_activity [Some ''Input''] = Inr [0, 1, 0, 0, 0, 0]"
  by (simp add: process_activity_def activity_bucket_def lower_Input value_counts_normalize_def
      unique_def ACTIVITY2IDX_def ACTIVITY_NAMES_def upt_rec)

lemma process_activity_Input2: "process_activity [Some ''Input'', Some ''Input''] = Inr [0, 1, 0, 0, 0, 0]"
  by (simp add: process_activity_def activity_bucket_def lower_Input value_counts_normalize_def
      unique_def ACTIVITY2IDX_def ACTIVITY_NAMES_def upt_rec)

lemma process_text_change_q: "process_text_change [Some ''q''] = Inr [1, 0]"
  by (simp add: process_text_change_def text_change_bucket_def value_counts_normalize_def
      unique_def TEXT_CHANGE2IDX_def TEXT_CHANGE_NAMES_def upt_rec)

lemma process_text_change_q2: "process_text_change [Some ''q'', Some ''q''] = Inr [1, 0]"
  by (simp add: process_text_change_def text_change_bucket_def value_counts_normalize_def
      unique_def TEXT_CHANGE2IDX_def TEXT_CHANGE_NAMES_def upt_rec)

lemma logs_single: "action_time_logs [Some v] = (if v + 1 \<le> 0 then Inl ValueError else Inr [Fin (ln (v + 1)), Fin (ln (v + 1)), NaN])"
  by (simp add: action_time_logs_def series_max_def series_mean_def series_std_def dropna_Cons_Some dropna_Nil)

text \<open>
  A table with a single event: the entry \<open>action_time_std_log\<close> of its row is NaN, not 0.
\<close>

theorem single_event_std_counterexample:
  "prepare_data [\<lparr>event_id = 1::nat, action_time = Some 7, activity = Some ''Input'', text_change = Some ''q''\<rparr>] None
   = Inr \<lparr>columns = [''id'',
                       ''action_time_max_log'', ''action_time_mean_log'', ''action_time_std_log'',
                       ''nonproduction'', ''input'', ''remove/cut'', ''paste'', ''replace'', ''move'',
                       ''alphanum'', ''other''],
          rows = [[Id 1, Val (Fin (ln 8)), Val (Fin (ln 8)), Val NaN,
                   Val (Fin 0), Val (Fin 1), Val (Fin 0), Val (Fin 0), Val (Fin 0), Val (Fin 0),
                   Val (Fin 1), Val (Fin 0)]]\<rparr>"
  by (simp add: prepare_data_def groupby_id_def group_row_def logs_single process_activity_Input
      process_text_change_q DataFrame_def FEATURE_COLUMNS_def ACTION_TIME_COLS_def
      ACTIVITY_NAMES_def TEXT_CHANGE_NAMES_def)

lemma logs_missing_negative:
  "action_time_logs [None, Some (- (1 / 2))] = Inr [Fin (ln (1 / 2)), Fin (ln (1 / 2)), NaN]"
  by (simp add: action_time_logs_def series_max_def series_mean_def series_std_def dropna_Cons_Some dropna_Cons_None dropna_Nil)

text \<open>
  A group with a missing and a negative \<open>action_time\<close>: the transform returns a row, the
  missing value skipped and the negative one used as it is.
\<close>

theorem action_time_unvalidated_counterexample:
  "prepare_data [\<lparr>event_id = 1::nat, action_time = None, activity = Some ''Input'', text_change = Some ''q''\<rparr>,
                 \<lparr>event_id = 1, action_time = Some (- (1 / 2)), activity = Some ''Input'', text_change = Some ''q''\<rparr>] None
   = Inr \<lparr>columns = [''id'',
                       ''action_time_max_log'', ''action_time_mean_log'', ''action_time_std_log'',
                       ''nonproduction'', ''input'', ''remove/cut'', ''paste'', ''replace'', ''move'',
                       ''alphanum'', ''other''],
          rows = [[Id 1, Val (Fin (ln (1 / 2))), Val (Fin (ln (1 / 2))), Val NaN,
                   Val (Fin 0), Val (Fin 1), Val (Fin 0), Val (Fin 0), Val (Fin 0), Val (Fin 0),
                   Val (Fin 1), Val (Fin 0)]]\<rparr>"
  by (simp add: prepare_data_def groupby_id_def group_row_def logs_missing_negative process_activity_Input2
      process_text_change_q2 DataFrame_def FEATURE_COLUMNS_def ACTION_TIME_COLS_def
      ACTIVITY_NAMES_def TEXT_CHANGE_NAMES_def)

text \<open>
  Claim C4, amended. For a group with a single event whose \<open>action_time\<close> lies between 0
  and \<open>2^63 - 1\<close> (below which adding one to a 64-bit integer does not wrap and the float
  arithmetic does not overflow), the timing computation returns, the first two timing
  entries are numbers that are not negative, and \<open>action_time_std_log\<close> is NaN. For a
  group of two or more values in that range all three timing entries are numbers, and
  none is negative.
\<close>

theorem single_event_std_nan:
  "(0 \<le> v \<and> v < 2 ^ 63 - 1 \<longrightarrow>
        (\<exists>a b. action_time_logs [Some v] = Inr [Fin a, Fin b, NaN] \<and> 0 \<le> a \<and> 0 \<le> b))
   \<and> (2 \<le> length vs \<and> (\<forall>x\<in>set vs. 0 \<le> x \<and> x < 2 ^ 63 - 1) \<longrightarrow>
        (\<exists>a b c. action_time_logs (map Some vs) = Inr [Fin a, Fin b, Fin c] \<and> 0 \<le> a \<and> 0 \<le> b \<and> 0 \<le> c))"
proof (intro conjI impI)
  assume "0 \<le> v \<and> v < 2 ^ 63 - 1"
  then have "action_time_logs [Some v] = Inr [Fin (ln (v + 1)), Fin (ln (v + 1)), NaN]"
      and "0 \<le> ln (v + 1)"
    by (simp_all add: logs_single)
  then show "\<exists>a b. action_time_logs [Some v] = Inr [Fin a, Fin b, NaN] \<and> 0 \<le> a \<and> 0 \<le> b"
    by blast
next
  assume a: "2 \<le> length vs \<and> (\<forall>x\<in>set vs. 0 \<le> x \<and> x < 2 ^ 63 - 1)"
  then have ne: "vs \<noteq> []" by auto
  have nonneg: "\<forall>x\<in>set vs. 0 \<le> x" using a by blast
  have "Max (set vs) \<in> set vs" using ne by (intro Max_in) auto
  then have mx: "0 \<le> Max (set vs)" using nonneg by blast
  have mn: "0 \<le> sum_list vs / real (length vs)"
    using sum_list_nonneg_real[OF nonneg] by simp
  let ?sd = "sqrt ((\<Sum>v\<leftarrow>vs. (v - sum_list vs / real (length vs))\<^sup>2) / real (length vs - 1))"
  have sq: "0 \<le> ?sd" using sum_squares_nonneg by (intro real_sqrt_ge_zero)
  have "action_time_logs (map Some vs) =
          Inr [Fin (ln (Max (set vs) + 1)), Fin (ln (sum_list vs / real (length vs) + 1)), Fin (ln (?sd + 1))]"
    using action_time_logs_nonneg[OF ne nonneg] a by simp
  moreover have "0 \<le> ln (Max (set vs) + 1)" using mx by simp
  moreover have "0 \<le> ln (sum_list vs / real (length vs) + 1)" using mn by simp
  moreover have "0 \<le> ln (?sd + 1)" using sq by simp
  ultimately show "\<exists>a b c. action_time_logs (map Some vs) = Inr [Fin a, Fin b, Fin c] \<and> 0 \<le> a \<and> 0 \<le> b \<and> 0 \<le> c"
    by blast
qed

text \<open>One event with the value 0, and three events with the values 2, 4 and 9.\<close>

theorem single_event_std_nan_witness:
  "(\<exists>a b. action_time_logs [Some 0] = Inr [Fin a, Fin b, NaN] \<and> 0 \<le> a \<and> 0 \<le> b)
   \<and> (\<exists>a b c. action_time_logs [Some 2, Some 4, Some 9] = Inr [Fin a, Fin b, Fin c] \<and> 0 \<le> a \<and> 0 \<le> b \<and> 0 \<le> c)"
  using single_event_std_nan[of 0 "[2, 4, 9]"] by simp

lemma sum_list_ge_const:
  fixes vs :: "real list"
  shows "\<forall>x\<in>set vs. c \<le> x \<Longrightarrow> real (length vs) * c \<le> sum_list vs"
  by (induction vs) (auto simp: algebra_simps)

lemma mean_ge_const:
  fixes vs :: "real list"
  assumes "vs \<noteq> []" and "\<forall>x\<in>set vs. c \<le> x"
  shows "c \<le> sum_list vs / real (length vs)"
proof -
  have "0 < real (length vs)" using assms(1) by simp
  then show ?thesis using sum_list_ge_const[OF assms(2)]
    by (simp add: le_divide_eq mult.commute)
qed

lemma action_time_logs_Inl_iff:
  "action_time_logs s = Inl e \<longleftrightarrow>
     e = ValueError \<and> dropna s \<noteq> [] \<and> sum_list (dropna s) / real (length (dropna s)) \<le> - 1"
proof (cases "dropna s = []")
  case True
  then show ?thesis using series_empty[OF True] by (simp add: action_time_logs_def)
next
  case False
  let ?M = "Max (set (dropna s))" and ?m = "sum_list (dropna s) / real (length (dropna s))"
  have le: "?m \<le> ?M" by (rule mean_le_Max[OF False])
  obtain c where c: "math_log (add1 (series_std s)) = Inr c" using math_log_std by blast
  show ?thesis
  proof (cases "?m \<le> - 1")
    case True
    then show ?thesis using False le
      by (auto simp: action_time_logs_def series_max_Max[OF False] series_mean_eq[OF False] c)
  next
    case m: False
    then have "\<not> ?M + 1 \<le> 0" "\<not> ?m + 1 \<le> 0" using le by linarith+
    then show ?thesis using m
      by (simp add: action_time_logs_def series_max_Max[OF False] series_mean_eq[OF False] c)
  qed
qed

text \<open>
  Claim C7, amended. Missing and negative values of \<open>action_time\<close> are not rejected as
  such. A group without any present value gets NaN for all three timing entries. A
  group that has a present value, all its present values between \<open>-1/2\<close> and \<open>2^63 - 1\<close>,
  gets its timing entries whether or not values are missing or negative: the first is
  the logarithm of the largest present value plus one, the second is a number. A group
  whose largest present value is at most \<open>-1\<close> fails with \<open>ValueError\<close>, the math domain
  error of \<open>math.log\<close>; and whenever the timing computation fails, it is with that
  error.
\<close>

theorem action_time_not_validated:
  "(dropna s = [] \<longrightarrow> action_time_logs s = Inr [NaN, NaN, NaN])
   \<and> (dropna t \<noteq> [] \<and> (\<forall>x\<in>set (dropna t). - (1 / 2) \<le> x \<and> x < 2 ^ 63 - 1) \<longrightarrow>
        (\<exists>b c. action_time_logs t = Inr [Fin (ln (Max (set (dropna t)) + 1)), Fin b, c]))
   \<and> (dropna u \<noteq> [] \<and> Max (set (dropna u)) \<le> - 1 \<longrightarrow> action_time_logs u = Inl ValueError)
   \<and> (action_time_logs w = Inl e \<longrightarrow> e = ValueError)"
proof (intro conjI impI)
  assume "dropna s = []"
  from series_empty[OF this] show "action_time_logs s = Inr [NaN, NaN, NaN]"
    by (simp add: action_time_logs_def)
next
  assume a: "dropna t \<noteq> [] \<and> (\<forall>x\<in>set (dropna t). - (1 / 2) \<le> x \<and> x < 2 ^ 63 - 1)"
  then have ne: "dropna t \<noteq> []" and lo: "\<forall>x\<in>set (dropna t). - (1 / 2) \<le> x" by blast+
  let ?M = "Max (set (dropna t))" and ?m = "sum_list (dropna t) / real (length (dropna t))"
  have "?M \<in> set (dropna t)" using ne by (intro Max_in) auto
  then have mx: "\<not> ?M + 1 \<le> 0" using lo by fastforce
  have "- (1 / 2) \<le> ?m" by (rule mean_ge_const[OF ne lo])
  then have mn: "\<not> ?m + 1 \<le> 0" by linarith
  obtain c where c: "math_log (add1 (series_std t)) = Inr c" using math_log_std by blast
  have "action_time_logs t = Inr [Fin (ln (?M + 1)), Fin (ln (?m + 1)), c]"
    using mx mn by (simp add: action_time_logs_def series_max_Max[OF ne] series_mean_eq[OF ne] c)
  then show "\<exists>b c. action_time_logs t = Inr [Fin (ln (?M + 1)), Fin b, c]" by blast
next
  assume a: "dropna u \<noteq> [] \<and> Max (set (dropna u)) \<le> - 1"
  then have ne: "dropna u \<noteq> []" by blast
  show "action_time_logs u = Inl ValueError"
    using a by (simp add: action_time_logs_def series_max_Max[OF ne])
next
  assume "action_time_logs w = Inl e"
  then show "e = ValueError" by (simp add: action_time_logs_Inl_iff)
qed

text \<open>
  A group with missing values only; a group with a missing value, \<open>-1/2\<close> and 3; and a
  group with \<open>-3\<close> and a missing value.
\<close>

theorem action_time_not_validated_witness:
  "action_time_logs [None, None] = Inr [NaN, NaN, NaN]
   \<and> (\<exists>b c. action_time_logs [None, Some (- (1 / 2)), Some 3] = Inr [Fin (ln 4), Fin b, c])
   \<and> action_time_logs [Some (- 3), None] = Inl ValueError"
proof -
  have s: "dropna [None, None :: real option] = []"
    by (simp add: dropna_Cons_None dropna_Nil)
  have t: "dropna [None, Some (- (1 / 2)), Some 3] = [- (1 / 2), 3 :: real]"
    by (simp add: dropna_Cons_Some dropna_Cons_None dropna_Nil)
  have u: "dropna [Some (- 3), None] = [- 3 :: real]"
    by (simp add: dropna_Cons_Some dropna_Cons_None dropna_Nil)
  have f: "action_time_logs [Some (- 3), None] = Inl ValueError"
    by (simp add: action_time_logs_def series_max_def u)
  show ?thesis
    using action_time_not_validated[of "[None, None]" "[None, Some (- (1 / 2)), Some 3]"
        "[Some (- 3), None]" "[Some (- 3), None]" ValueError]
    unfolding s t u by (simp add: f)
qed

section \<open>The loop over the groups\<close>

lemma process_activity_length: "process_activity acts = Inr v \<Longrightarrow> length v = 6"
  using process_activity_Inr[of acts v] by (auto simp: ACTIVITY_NAMES_def)

lemma process_text_change_length: "process_text_change tcs = Inr w \<Longrightarrow> length w = 2"
  using process_text_change_hist[of tcs] by (auto simp: TEXT_CHANGE_NAMES_def)

lemma action_time_logs_length: "action_time_logs s = Inr ts \<Longrightarrow> length ts = 3"
  by (auto simp: action_time_logs_def split: sum.splits)

lemma group_row_shape:
  "group_row k g = Inr row \<Longrightarrow> length row = 12 \<and> row ! 0 = Id k"
  by (auto simp: group_row_def split: sum.splits
      dest!: process_activity_length process_text_change_length action_time_logs_length)

lemma collect_rows_Inr:
  "collect_rows gs data = Inr out \<Longrightarrow>
     \<exists>new. out = data @ new \<and> length new = length gs
        \<and> (\<forall>i<length gs. group_row (fst (gs ! i)) (snd (gs ! i)) = Inr (new ! i))"
proof (induction gs data arbitrary: out rule: collect_rows.induct)
  case (1 data)
  then show ?case by simp
next
  case (2 log_id grp rest data)
  from "2.prems" obtain tmp where tmp: "group_row log_id grp = Inr tmp"
    and rest: "collect_rows rest (data @ [tmp]) = Inr out"
    by (auto split: sum.splits)
  from "2.IH"[OF tmp rest] obtain new where new: "out = (data @ [tmp]) @ new" "length new = length rest"
    "\<forall>i<length rest. group_row (fst (rest ! i)) (snd (rest ! i)) = Inr (new ! i)"
    by blast
  have "out = data @ (tmp # new)" using new(1) by simp
  moreover have "length (tmp # new) = length ((log_id, grp) # rest)" using new(2) by simp
  moreover have "\<forall>i<length ((log_id, grp) # rest).
      group_row (fst (((log_id, grp) # rest) ! i)) (snd (((log_id, grp) # rest) ! i)) = Inr ((tmp # new) ! i)"
    using tmp new(3) by (auto simp: nth_Cons split: nat.splits)
  ultimately show ?case by blast
qed


lemma collect_rows_fails:
  "p \<in> set gs \<Longrightarrow> group_row (fst p) (snd p) = Inl e \<Longrightarrow> \<exists>e'. collect_rows gs data = Inl e'"
  by (induction gs data rule: collect_rows.induct) (auto split: sum.splits)

lemma length_FEATURE_COLUMNS: "length FEATURE_COLUMNS = 12"
  by (simp add: FEATURE_COLUMNS_def ACTION_TIME_COLS_def ACTIVITY_NAMES_def TEXT_CHANGE_NAMES_def)

lemma prepare_data_None_Inr:
  assumes "prepare_data df None = Inr res"
  shows "columns res = FEATURE_COLUMNS \<and> length (rows res) = length (groupby_id df)
         \<and> (\<forall>i<length (groupby_id df).
               group_row (fst (groupby_id df ! i)) (snd (groupby_id df ! i)) = Inr (rows res ! i))"
proof -
  from assms obtain data where data: "collect_rows (groupby_id df) [] = Inr data"
    and res: "DataFrame data FEATURE_COLUMNS = Inr res"
    by (auto simp: prepare_data_def split: sum.splits)
  from res have r: "res = \<lparr>columns = FEATURE_COLUMNS, rows = data\<rparr>"
    by (auto simp: DataFrame_def split: if_splits)
  from collect_rows_Inr[OF data] show ?thesis using r by auto
qed


lemma prepare_data_fails:
  assumes "p \<in> set (groupby_id df)" "group_row (fst p) (snd p) = Inl e"
  shows "\<exists>e'. prepare_data df labels = Inl e'"
proof -
  from collect_rows_fails[OF assms] obtain e' where "collect_rows (groupby_id df) [] = Inl e'"
    by blast
  then show ?thesis by (simp add: prepare_data_def)
qed


lemma groupby_id_member:
  "e \<in> set df \<Longrightarrow> (event_id e, filter (\<lambda>x. event_id x = event_id e) df) \<in> set (groupby_id df)"
  by (auto simp: groupby_id_def)


lemma bucket_of_sublist: "bucket_of s = (if sublist ''Move'' s then ''move'' else lower s)"
  by (simp add: bucket_of_def str_contains_sublist)



lemma process_activity_bad_value:
  assumes "Some s \<in> set acts" "bucket_of s \<notin> set ACTIVITY_NAMES"
  shows "\<exists>e. process_activity acts = Inl e"
proof (cases "process_activity acts")
  case (Inl e)
  then show ?thesis by blast
next
  case (Inr v)
  from process_activity_Inr[OF Inr] obtain raw where "acts = map Some raw"
    "set (map bucket_of raw) \<subseteq> set ACTIVITY_NAMES" by blast
  then have "bucket_of s \<in> set ACTIVITY_NAMES" using assms(1) by auto
  then show ?thesis using assms(2) by blast
qed

lemma group_row_bad_activity:
  assumes "e \<in> set g" "activity e = Some s" "bucket_of s \<notin> set ACTIVITY_NAMES"
  shows "\<exists>err. group_row k g = Inl err"
proof -
  have "Some s \<in> set (map activity g)" using assms(1,2) by force
  from process_activity_bad_value[OF this assms(3)] obtain err
    where "process_activity (map activity g) = Inl err" by blast
  then show ?thesis by (cases "action_time_logs (map action_time g)") (simp_all add: group_row_def)
qed



text \<open>
  Claim C6. If some event of the table has an activity whose bucket is not one of the
  six vocabulary names, \<open>prepare_data\<close> returns an error, with or without labels, and so
  no table at all.
\<close>

theorem unknown_activity_fails:
  assumes "e \<in> set df" and "activity e = Some s"
    and "(if sublist ''Move'' s then ''move'' else lower s) \<notin> set ACTIVITY_NAMES"
  shows "\<exists>err. prepare_data df labels = Inl err"
proof -
  let ?g = "filter (\<lambda>x. event_id x = event_id e) df"
  have "e \<in> set ?g" using assms(1) by simp
  from group_row_bad_activity[OF this assms(2)] assms(3)
  obtain err where "group_row (event_id e) ?g = Inl err" by (auto simp: bucket_of_sublist)
  with groupby_id_member[OF assms(1)] show ?thesis
    by (intro prepare_data_fails[of "(event_id e, ?g)"]) auto
qed

text \<open>The activity \<open>Scroll\<close> in the second of two groups.\<close>

theorem unknown_activity_fails_witness:
  "\<exists>err. prepare_data
            [\<lparr>event_id = 1::nat, action_time = Some 5, activity = Some ''Input'', text_change = Some ''q''\<rparr>,
             \<lparr>event_id = 2, action_time = Some 4, activity = Some ''Scroll'', text_change = Some ''q''\<rparr>] None
          = Inl err"
proof -
  have l: "lower ''Scroll'' = ''scroll''" by code_simp
  have s: "\<not> sublist ''Move'' ''Scroll''" unfolding str_contains_sublist[symmetric] by simp
  show ?thesis
    by (rule unknown_activity_fails[where s = "''Scroll''"
          and e = "\<lparr>event_id = 2, action_time = Some 4, activity = Some ''Scroll'', text_change = Some ''q''\<rparr>"])
       (simp_all add: l s ACTIVITY_NAMES_def)
qed

section \<open>Joining the labels\<close>

lemma key_position_FEATURE_COLUMNS: "key_position ''id'' FEATURE_COLUMNS = Inr 0"
  by (simp add: key_position_def FEATURE_COLUMNS_def ACTION_TIME_COLS_def ACTIVITY_NAMES_def
      TEXT_CHANGE_NAMES_def)

lemma index_of_Some_mem: "index_of x xs = Some k \<Longrightarrow> x \<in> set xs"
  by (induction xs arbitrary: k) (auto split: if_splits)

lemma count_list_distinct: "distinct xs \<Longrightarrow> x \<in> set xs \<Longrightarrow> count_list xs x = 1"
  by (induction xs) (auto simp: count_list_0_iff)

lemma key_position_distinct:
  "distinct cols \<Longrightarrow> index_of key cols = Some k \<Longrightarrow> key_position key cols = Inr k"
  by (simp add: key_position_def count_list_distinct index_of_Some_mem)

lemma prepare_data_Some:
  "prepare_data df (Some l) =
     (case prepare_data df None of Inl e \<Rightarrow> Inl e | Inr feat \<Rightarrow> merge_left feat l)"
  by (simp add: prepare_data_def split: sum.splits)

lemma prepare_data_rows_length:
  assumes "prepare_data df None = Inr feat" "f \<in> set (rows feat)"
  shows "length f = 12"
proof -
  from assms(2) obtain i where i: "i < length (rows feat)" "rows feat ! i = f"
    by (auto simp: in_set_conv_nth)
  note shape = prepare_data_None_Inr[OF assms(1)]
  have "group_row (fst (groupby_id df ! i)) (snd (groupby_id df ! i)) = Inr f"
    using shape i by auto
  then show ?thesis by (rule group_row_shape[THEN conjunct1])
qed

lemma filter_distinct_key:
  "distinct (map g xs) \<Longrightarrow> filter (\<lambda>r. g r = k) xs = [] \<or> (\<exists>m. filter (\<lambda>r. g r = k) xs = [m])"
proof (induction xs)
  case Nil
  then show ?case by simp
next
  case (Cons x xs)
  show ?case
  proof (cases "g x = k")
    case True
    then have "k \<notin> g ` set xs" using Cons.prems by simp
    then have "filter (\<lambda>r. g r = k) xs = []" unfolding filter_empty_conv by blast
    then show ?thesis using True by simp
  next
    case False
    then show ?thesis using Cons by simp
  qed
qed

lemma merge_row_distinct:
  assumes "distinct (map (\<lambda>r. r ! kr) rrows)"
  shows "\<exists>x. merge_row kl kr rrows w f = [f @ x]"
  using filter_distinct_key[OF assms, of "f ! kl"]
  by (auto simp: merge_row_def)

lemma merge_rows_distinct:
  assumes "distinct (map (\<lambda>r. r ! kr) rrows)" and "\<forall>f\<in>set fs. length f = n"
  shows "map (take n) (concat (map (merge_row kl kr rrows w) fs)) = fs"
  using assms(2)
proof (induction fs)
  case Nil
  then show ?case by simp
next
  case (Cons f fs)
  obtain x where "merge_row kl kr rrows w f = [f @ x]" using merge_row_distinct[OF assms(1)] by blast
  then show ?case using Cons by simp
qed

text \<open>
  Claim C9, amended. Take a label table whose column names are distinct, one of them
  \<open>id\<close> and the others not among the feature columns, each of its rows as wide as its
  header with an id in the \<open>id\<close> column. Then the result is the left join of the
  feature table with it: the feature rows in their order, each one once for every label
  row with the same id, followed by that label row's other cells, or once followed by
  missing values when no label row has its id. No feature row is dropped; when the
  label ids are distinct none is doubled either, and the result has exactly the feature
  rows, each with its labels appended. Without a label table the feature table itself
  is the result.
\<close>

theorem prepare_data_left_join:
  assumes "prepare_data df None = Inr feat"
    and "distinct (columns l)" and "index_of ''id'' (columns l) = Some kr"
    and "set (columns l) \<inter> set FEATURE_COLUMNS = {''id''}"
    and "\<forall>r\<in>set (rows l). length r = length (columns l) \<and> (\<exists>k. r ! kr = Id k)"
  shows "\<exists>res. prepare_data df (Some l) = Inr res
           \<and> rows res =
               concat (map (\<lambda>f. case filter (\<lambda>r. r ! kr = f ! 0) (rows l) of
                                   [] \<Rightarrow> [f @ replicate (length (columns l) - 1) (Val NaN)]
                                 | m # ms \<Rightarrow> map (\<lambda>r. f @ drop_at kr r) (m # ms))
                           (rows feat))
           \<and> (distinct (map (\<lambda>r. r ! kr) (rows l)) \<longrightarrow>
                length (rows res) = length (rows feat) \<and> map (take 12) (rows res) = rows feat)"
proof -
  let ?rows = "concat (map (merge_row 0 kr (rows l) (length (columns l) - 1)) (rows feat))"
  let ?res = "\<lparr>columns = merge_columns (columns feat) (drop_at kr (columns l)), rows = ?rows\<rparr>"
  have cols: "columns feat = FEATURE_COLUMNS" using prepare_data_None_Inr[OF assms(1)] by simp
  have res: "prepare_data df (Some l) = Inr ?res"
    by (simp add: prepare_data_Some assms(1) merge_left_def cols key_position_FEATURE_COLUMNS
        key_position_distinct[OF assms(2,3)])
  have char: "rows ?res = concat (map (\<lambda>f. case filter (\<lambda>r. r ! kr = f ! 0) (rows l) of
                                   [] \<Rightarrow> [f @ replicate (length (columns l) - 1) (Val NaN)]
                                 | m # ms \<Rightarrow> map (\<lambda>r. f @ drop_at kr r) (m # ms))
                           (rows feat))"
    unfolding dataframe.simps merge_row_def by (rule refl)
  have dist: "length (rows ?res) = length (rows feat) \<and> map (take 12) (rows ?res) = rows feat"
    if d: "distinct (map (\<lambda>r. r ! kr) (rows l))"
  proof -
    have "\<forall>f\<in>set (rows feat). length f = 12"
      using prepare_data_rows_length[OF assms(1)] by blast
    from merge_rows_distinct[OF d this]
    have m: "map (take 12) ?rows = rows feat" .
    then have "length (map (take 12) ?rows) = length (rows feat)" by simp
    then show ?thesis using m by simp
  qed
  show ?thesis using res char dist by blast
qed

lemma group_row_Input_q:
  "group_row k [\<lparr>event_id = i, action_time = Some 0, activity = Some ''Input'', text_change = Some ''q''\<rparr>]
   = Inr [Id k, Val (Fin 0), Val (Fin 0), Val NaN,
          Val (Fin 0), Val (Fin 1), Val (Fin 0), Val (Fin 0), Val (Fin 0), Val (Fin 0),
          Val (Fin 1), Val (Fin 0)]"
  by (simp add: group_row_def logs_single process_activity_Input process_text_change_q)

text \<open>
  A label table with two rows for the id 1: the one feature row comes out twice.
\<close>

theorem duplicate_label_ids_counterexample:
  "prepare_data [\<lparr>event_id = 1::nat, action_time = Some 0, activity = Some ''Input'', text_change = Some ''q''\<rparr>]
     (Some \<lparr>columns = [''id'', ''score''], rows = [[Id 1, Val (Fin 3)], [Id 1, Val (Fin 4)]]\<rparr>)
   = Inr \<lparr>columns = [''id'',
                       ''action_time_max_log'', ''action_time_mean_log'', ''action_time_std_log'',
                       ''nonproduction'', ''input'', ''remove/cut'', ''paste'', ''replace'', ''move'',
                       ''alphanum'', ''other'', ''score''],
          rows = [[Id 1, Val (Fin 0), Val (Fin 0), Val NaN,
                   Val (Fin 0), Val (Fin 1), Val (Fin 0), Val (Fin 0), Val (Fin 0), Val (Fin 0),
                   Val (Fin 1), Val (Fin 0), Val (Fin 3)],
                  [Id 1, Val (Fin 0), Val (Fin 0), Val NaN,
                   Val (Fin 0), Val (Fin 1), Val (Fin 0), Val (Fin 0), Val (Fin 0), Val (Fin 0),
                   Val (Fin 1), Val (Fin 0), Val (Fin 4)]]\<rparr>"
  by (simp add: prepare_data_def groupby_id_def group_row_Input_q DataFrame_def merge_left_def
      key_position_def merge_row_def merge_columns_def drop_at_def FEATURE_COLUMNS_def
      ACTION_TIME_COLS_def ACTIVITY_NAMES_def TEXT_CHANGE_NAMES_def)

lemma two_groups_features:
  "prepare_data [\<lparr>event_id = 1::nat, action_time = Some 0, activity = Some ''Input'', text_change = Some ''q''\<rparr>,
                 \<lparr>event_id = 2, action_time = Some 0, activity = Some ''Input'', text_change = Some ''q''\<rparr>] None
   = Inr \<lparr>columns = FEATURE_COLUMNS,
          rows = [[Id 1, Val (Fin 0), Val (Fin 0), Val NaN,
                   Val (Fin 0), Val (Fin 1), Val (Fin 0), Val (Fin 0), Val (Fin 0), Val (Fin 0),
                   Val (Fin 1), Val (Fin 0)],
                  [Id 2, Val (Fin 0), Val (Fin 0), Val NaN,
                   Val (Fin 0), Val (Fin 1), Val (Fin 0), Val (Fin 0), Val (Fin 0), Val (Fin 0),
                   Val (Fin 1), Val (Fin 0)]]\<rparr>"
  by (simp add: prepare_data_def groupby_id_def group_row_Input_q DataFrame_def length_FEATURE_COLUMNS)

text \<open>
  Two feature rows, for the ids 1 and 2, and labels for the ids 2 and 7: the first row
  gets a missing label, the second its label, and the label of 7 is not used.
\<close>

theorem prepare_data_left_join_witness:
  "\<exists>res. prepare_data
            [\<lparr>event_id = 1::nat, action_time = Some 0, activity = Some ''Input'', text_change = Some ''q''\<rparr>,
             \<lparr>event_id = 2, action_time = Some 0, activity = Some ''Input'', text_change = Some ''q''\<rparr>]
            (Some \<lparr>columns = [''id'', ''score''], rows = [[Id 2, Val (Fin 5)], [Id 7, Val (Fin 6)]]\<rparr>)
          = Inr res
        \<and> map (drop 12) (rows res) = [[Val NaN], [Val (Fin 5)]]
        \<and> length (rows res) = 2"
proof -
  let ?l = "\<lparr>columns = [''id'', ''score''],
             rows = [[Id 2, Val (Fin 5)], [Id (7::nat), Val (Fin 6)]]\<rparr>"
  have names: "set (columns ?l) \<inter> set FEATURE_COLUMNS = {''id''}"
    by (auto simp: FEATURE_COLUMNS_def ACTION_TIME_COLS_def ACTIVITY_NAMES_def TEXT_CHANGE_NAMES_def)
  have "distinct (columns ?l)" and "index_of ''id'' (columns ?l) = Some 0"
    and "\<forall>r\<in>set (rows ?l). length r = length (columns ?l) \<and> (\<exists>k. r ! 0 = Id k)"
    by simp_all
  from prepare_data_left_join[OF two_groups_features this(1,2) names this(3)]
  show ?thesis by (auto simp: drop_at_def)
qed

end
